theory Spec2Isabelle
  imports Main "HOL-Library.Multiset"
begin

section \<open>Values and exceptions\<close>

text \<open>
  The program is one Python module, \<^verbatim>\<open>streamlit_bingo_app.py\<close>: an extractor
  (\<^verbatim>\<open>parse_items_with_llm\<close>), a renderer (\<^verbatim>\<open>generate_bingo_card\<close>) and the
  Streamlit driver at module level.  Python text is modelled as \<^typ>\<open>string\<close>, one
  \<^typ>\<open>char\<close> per code point, which covers the code points below 256.  A raised exception is the
  \<open>Inl\<close> side of a sum.
\<close>

datatype exn =
    JSONDecodeError string
  | ValueError string
  | TypeError string
  | AttributeError string
  | IndexError string
  | RemoteError string
  | Unmodelled string

text \<open>
  \<open>RemoteError\<close> stands for whatever the OpenAI client raises (missing credential,
  unreachable endpoint, non-success response).  \<open>Unmodelled\<close> is not a Python exception:
  it marks a run that leaves the fragment modelled here.
\<close>

section \<open>The card: \<^verbatim>\<open>generate_bingo_card\<close>\<close>

subsection \<open>The slot list\<close>

text \<open>
  \<^verbatim>\<open>
  if len(items) < 24:
      all_slots = items + [""] * (24 - len(items))
  else:
      all_slots = items[:24]
  \<close>
\<close>

definition pad_or_trim :: "string list \<Rightarrow> string list" where
  "pad_or_trim items =
     (if length items < 24 then items @ replicate (24 - length items) ''''
      else take 24 items)"

text \<open>
  \<^verbatim>\<open>random.shuffle(all_slots)\<close> is the standard library's in-place exchange loop
  \<^verbatim>\<open>
  for i in reversed(range(1, len(x))):
      j = randbelow(i + 1)
      x[i], x[j] = x[j], x[i]
  \<close>
  The random source is the parameter \<open>randbelow\<close>: \<open>randbelow n\<close> is the number drawn by
  the one call \<^verbatim>\<open>randbelow(n)\<close> of a run (the loop calls it once for each \<open>n\<close>), and the
  library promises \<open>randbelow n < n\<close>.  \<open>shuffle_from randbelow k x\<close> runs the iterations
  \<open>i = k, k - 1, \<dots>, 1\<close>.
\<close>

fun shuffle_from :: "(nat \<Rightarrow> nat) \<Rightarrow> nat \<Rightarrow> 'a list \<Rightarrow> 'a list" where
  "shuffle_from randbelow 0 x = x"
| "shuffle_from randbelow (Suc k) x =
     (let i = Suc k; j = randbelow (i + 1)
      in shuffle_from randbelow k (x[i := x ! j, j := x ! i]))"

definition shuffle :: "(nat \<Rightarrow> nat) \<Rightarrow> 'a list \<Rightarrow> 'a list" where
  "shuffle randbelow x = shuffle_from randbelow (length x - 1) x"

text \<open>\<^verbatim>\<open>list.insert(i, v)\<close> for \<open>i \<ge> 0\<close>: past the end it appends.\<close>

definition list_insert :: "nat \<Rightarrow> 'a \<Rightarrow> 'a list \<Rightarrow> 'a list" where
  "list_insert i v xs = take i xs @ v # drop i xs"

text \<open>The literal of line 53, \<^verbatim>\<open>"FREE:\nAppreciate Life"\<close>; \<^verbatim>\<open>\n\<close> is the line feed.\<close>

definition free_label :: string where
  "free_label = ''FREE:'' @ [CHR 0x0A] @ ''Appreciate Life''"

text \<open>The slot list before the shuffle, and the 25-element sequence after line 53.\<close>

definition all_slots :: "(nat \<Rightarrow> nat) \<Rightarrow> string list \<Rightarrow> string list" where
  "all_slots randbelow items =
     list_insert 12 free_label (shuffle randbelow (pad_or_trim items))"

subsection \<open>The grid\<close>

text \<open>\<^verbatim>\<open>idx = (4 - j) * 5 + i\<close>, on Python's integers.\<close>

definition cell_idx :: "int \<Rightarrow> int \<Rightarrow> int" where
  "cell_idx i j = (4 - j) * 5 + i"

text \<open>\<^verbatim>\<open>xs[i]\<close>: a negative index counts from the end, out of range raises.\<close>

definition subscript :: "'a list \<Rightarrow> int \<Rightarrow> exn + 'a" where
  "subscript xs i =
     (let n = int (length xs); k = (if i < 0 then n + i else i)
      in if 0 \<le> k \<and> k < n then Inr (xs ! nat k)
         else Inl (IndexError ''list index out of range''))"

text \<open>\<^verbatim>\<open>"\n".join(lines)\<close>\<close>

fun join_lines :: "string list \<Rightarrow> string" where
  "join_lines [] = ''''"
| "join_lines [l] = l"
| "join_lines (l # ls) = l @ [CHR 0x0A] @ join_lines ls"

text \<open>
  One square of the card: the rectangle at \<open>(i, j)\<close> with its fill colour, and the text
  centred in it.  \<^verbatim>\<open>textwrap.wrap(label, width=15)\<close> is the parameter \<open>wrap\<close>.
\<close>

record cell =
  col :: int
  row :: int
  face_color :: string
  wrapped_label :: string

definition draw_cell :: "(string \<Rightarrow> string list) \<Rightarrow> string list \<Rightarrow> int \<Rightarrow> int \<Rightarrow> exn + cell" where
  "draw_cell wrap slots i j =
     (let idx = cell_idx i j
      in case subscript slots idx of
           Inl e \<Rightarrow> Inl e
         | Inr label \<Rightarrow>
             Inr \<lparr> col = i, row = j,
                   face_color = (if idx = 12 then ''#fff0f3'' else ''white''),
                   wrapped_label = join_lines (wrap label) \<rparr>)"

text \<open>Running a list of steps in order; the first exception ends the run.\<close>

fun collect :: "(exn + 'a) list \<Rightarrow> exn + 'a list" where
  "collect [] = Inr []"
| "collect (Inl e # rs) = Inl e"
| "collect (Inr v # rs) = (case collect rs of Inl e \<Rightarrow> Inl e | Inr vs \<Rightarrow> Inr (v # vs))"

text \<open>\<^verbatim>\<open>range(5)\<close>\<close>

definition range5 :: "int list" where
  "range5 = [0, 1, 2, 3, 4]"

text \<open>
  The figure: the 25 squares in the order the nested loops draw them (\<open>i\<close> outer, \<open>j\<close>
  inner), the five column headers and the title.  Font settings and the half-unit offsets
  of the text anchors are presentation only and are left out.
\<close>

record figure =
  cells :: "cell list"
  headers :: "(int \<times> string) list"
  title :: string

definition generate_bingo_card ::
  "(nat \<Rightarrow> nat) \<Rightarrow> (string \<Rightarrow> string list) \<Rightarrow> string list \<Rightarrow> string \<Rightarrow> exn + figure" where
  "generate_bingo_card randbelow wrap items ttl =
     (let slots = all_slots randbelow items
      in case collect (concat (map (\<lambda>i. map (\<lambda>j. draw_cell wrap slots i j) range5) range5)) of
           Inl e \<Rightarrow> Inl e
         | Inr cs \<Rightarrow>
             Inr \<lparr> cells = cs,
                   headers = [(0, ''B''), (1, ''I''), (2, ''N''), (3, ''G''), (4, ''O'')],
                   title = ttl \<rparr>)"

section \<open>The extractor: \<^verbatim>\<open>parse_items_with_llm\<close>\<close>

subsection \<open>String operations\<close>

text \<open>\<^verbatim>\<open>str.isspace\<close> on one character, for the code points below 256.\<close>

definition isspace :: "char \<Rightarrow> bool" where
  "isspace c =
     (let n = (of_char c :: nat)
      in (9 \<le> n \<and> n \<le> 13) \<or> (28 \<le> n \<and> n \<le> 32) \<or> n = 133 \<or> n = 160)"

text \<open>\<^verbatim>\<open>s.strip()\<close>\<close>

definition strip :: "string \<Rightarrow> string" where
  "strip s = rev (dropWhile isspace (rev (dropWhile isspace s)))"

text \<open>\<^verbatim>\<open>s.startswith(p)\<close>\<close>

definition startswith :: "string \<Rightarrow> string \<Rightarrow> bool" where
  "startswith s p = (take (length p) s = p)"

text \<open>
  \<^verbatim>\<open>s.split(sep)\<close> for a non-empty separator: the pieces between the non-overlapping
  occurrences of \<open>sep\<close>, found from the left.  (Python raises on an empty separator; the
  program only splits on the fence.)
\<close>

function split :: "string \<Rightarrow> string \<Rightarrow> string list" where
  "split sep [] = [[]]"
| "split sep (c # cs) =
     (if sep \<noteq> [] \<and> startswith (c # cs) sep
      then [] # split sep (drop (length sep) (c # cs))
      else (case split sep cs of [] \<Rightarrow> [[c]] | p # ps \<Rightarrow> (c # p) # ps))"
  by pat_completeness auto
termination
  by (relation "measure (\<lambda>(sep, s). length s)") (auto simp: neq_Nil_conv)

text \<open>The fence: three grave accents.\<close>

definition fence :: string where
  "fence = [CHR 0x60, CHR 0x60, CHR 0x60]"

subsection \<open>JSON values\<close>

text \<open>
  What \<^verbatim>\<open>json.loads\<close> returns.  A number is kept as the text of its literal (Python
  turns it into an \<^verbatim>\<open>int\<close> or a \<^verbatim>\<open>float\<close>), a \<^verbatim>\<open>dict\<close> is the list of its
  entries in insertion order, with distinct keys.
\<close>

datatype json =
    JNull
  | JBool bool
  | JNumber string
  | JConstant string
  | JString string
  | JArray "json list"
  | JObject "(string \<times> json) list"

text \<open>\<^verbatim>\<open>d[k] = v\<close>: a present key keeps its place and takes the new value.\<close>

fun dict_set :: "(string \<times> json) list \<Rightarrow> string \<Rightarrow> json \<Rightarrow> (string \<times> json) list" where
  "dict_set [] k v = [(k, v)]"
| "dict_set (p # ps) k v = (if fst p = k then (k, v) # ps else p # dict_set ps k v)"

subsection \<open>The decoder of \<^verbatim>\<open>json.loads\<close>\<close>

text \<open>
  The decoder follows the standard library (\<^verbatim>\<open>json/decoder.py\<close>,
  \<^verbatim>\<open>json/scanner.py\<close>) on the rest of the input instead of an index into it.  Left out:
  the position that Python appends to the message of a \<^verbatim>\<open>JSONDecodeError\<close>, and the
  interpreter's recursion limit on deeply nested documents.  A \<^verbatim>\<open>\uXXXX\<close> escape of a
  code point above 255 is \<open>Unmodelled\<close>.
\<close>

definition is_ws :: "char \<Rightarrow> bool" where
  "is_ws c = (c = CHR '' '' \<or> c = CHR 0x09 \<or> c = CHR 0x0A \<or> c = CHR 0x0D)"

definition skip_ws :: "string \<Rightarrow> string" where
  "skip_ws s = dropWhile is_ws s"

definition is_digit :: "char \<Rightarrow> bool" where
  "is_digit c = (let n = (of_char c :: nat) in 48 \<le> n \<and> n \<le> 57)"

definition hex_val :: "char \<Rightarrow> nat option" where
  "hex_val c =
     (let n = (of_char c :: nat)
      in if 48 \<le> n \<and> n \<le> 57 then Some (n - 48)
         else if 97 \<le> n \<and> n \<le> 102 then Some (n - 87)
         else if 65 \<le> n \<and> n \<le> 70 then Some (n - 55)
         else None)"

text \<open>The four hexadecimal digits of a \<^verbatim>\<open>\uXXXX\<close> escape.\<close>

definition decode_uXXXX :: "char \<Rightarrow> char \<Rightarrow> char \<Rightarrow> char \<Rightarrow> nat option" where
  "decode_uXXXX a b c d =
     (case (hex_val a, hex_val b, hex_val c, hex_val d) of
        (Some x, Some y, Some z, Some w) \<Rightarrow> Some (((x * 16 + y) * 16 + z) * 16 + w)
      | _ \<Rightarrow> None)"

text \<open>The table \<^verbatim>\<open>BACKSLASH\<close> of the one-character escapes.\<close>

definition backslash :: "char \<Rightarrow> char option" where
  "backslash e =
     (if e = CHR 0x22 then Some (CHR 0x22)
      else if e = CHR 0x5C then Some (CHR 0x5C)
      else if e = CHR ''/'' then Some (CHR ''/'')
      else if e = CHR ''b'' then Some (CHR 0x08)
      else if e = CHR ''f'' then Some (CHR 0x0C)
      else if e = CHR ''n'' then Some (CHR 0x0A)
      else if e = CHR ''r'' then Some (CHR 0x0D)
      else if e = CHR ''t'' then Some (CHR 0x09)
      else None)"

definition cons_char :: "char \<Rightarrow> exn + string \<times> string \<Rightarrow> exn + string \<times> string" where
  "cons_char c r = (case r of Inl e \<Rightarrow> Inl e | Inr (str, rest) \<Rightarrow> Inr (c # str, rest))"

text \<open>
  \<^verbatim>\<open>scanstring\<close> (strict): the input starts after the opening quote; the result is the
  decoded string and the input after the closing quote.
\<close>

fun scanstring :: "string \<Rightarrow> exn + string \<times> string" where
  "scanstring [] = Inl (JSONDecodeError ''Unterminated string starting at'')"
| "scanstring (c # cs) =
     (if c = CHR 0x22 then Inr ([], cs)
      else if c = CHR 0x5C then
        (case cs of
           [] \<Rightarrow> Inl (JSONDecodeError ''Unterminated string starting at'')
         | e # es \<Rightarrow>
             if e \<noteq> CHR ''u'' then
               (case backslash e of
                  None \<Rightarrow> Inl (JSONDecodeError ''Invalid escape'')
                | Some ch \<Rightarrow> cons_char ch (scanstring es))
             else
               (case es of
                  a # b # c # d # rest \<Rightarrow>
                    (case decode_uXXXX a b c d of
                       None \<Rightarrow> Inl (JSONDecodeError ''Invalid uXXXX escape'')
                     | Some uni \<Rightarrow>
                         if uni < 256 then cons_char (char_of uni) (scanstring rest)
                         else Inl (Unmodelled ''code point above 255''))
                | _ \<Rightarrow> Inl (JSONDecodeError ''Invalid uXXXX escape'')))
      else if (of_char c :: nat) < 32 then Inl (JSONDecodeError ''Invalid control character at'')
      else cons_char c (scanstring cs))"

text \<open>
  \<^verbatim>\<open>NUMBER_RE.match\<close>, for the pattern
  \<^verbatim>\<open>(-?(?:0|[1-9]\d*))(\.\d+)?([eE][-+]?\d+)?\<close>: the three groups and the input after
  the match.
\<close>

definition match_int :: "string \<Rightarrow> (string \<times> string) option" where
  "match_int s =
     (let sign = (if startswith s ''-'' then ''-'' else []);
          t = drop (length sign) s
      in case t of
           [] \<Rightarrow> None
         | c # cs \<Rightarrow>
             if c = CHR ''0'' then Some (sign @ ''0'', cs)
             else if is_digit c then Some (sign @ c # takeWhile is_digit cs, dropWhile is_digit cs)
             else None)"

definition match_frac :: "string \<Rightarrow> string \<times> string" where
  "match_frac s =
     (case s of
        c # d # ds \<Rightarrow>
          if c = CHR ''.'' \<and> is_digit d
          then (c # takeWhile is_digit (d # ds), dropWhile is_digit (d # ds))
          else ([], s)
      | _ \<Rightarrow> ([], s))"

definition match_exp :: "string \<Rightarrow> string \<times> string" where
  "match_exp s =
     (case s of
        [] \<Rightarrow> ([], s)
      | c # cs \<Rightarrow>
          if c = CHR ''e'' \<or> c = CHR ''E'' then
            (let sign = (if startswith cs ''-'' then ''-''
                         else if startswith cs ''+'' then ''+'' else []);
                 t = drop (length sign) cs
             in if t \<noteq> [] \<and> is_digit (hd t)
                then (c # sign @ takeWhile is_digit t, dropWhile is_digit t)
                else ([], s))
          else ([], s))"

definition match_number :: "string \<Rightarrow> (string \<times> string \<times> string \<times> string) option" where
  "match_number s =
     (case match_int s of
        None \<Rightarrow> None
      | Some (integer, r1) \<Rightarrow>
          (let (frac, r2) = match_frac r1; (ex, r3) = match_exp r2
           in Some (integer, frac, ex, r3)))"

text \<open>
  \<^verbatim>\<open>int(integer)\<close> raises \<^verbatim>\<open>ValueError\<close> on more than 4300 digits (the default
  limit on integer string conversion); \<^verbatim>\<open>float\<close> always returns.
\<close>

definition number_value :: "string \<Rightarrow> string \<Rightarrow> string \<Rightarrow> exn + json" where
  "number_value integer frac ex =
     (if frac \<noteq> [] \<or> ex \<noteq> [] then Inr (JNumber (integer @ frac @ ex))
      else if length (filter is_digit integer) > 4300
      then Inl (ValueError ''Exceeds the limit (4300 digits) for integer string conversion'')
      else Inr (JNumber integer))"

text \<open>
  \<^verbatim>\<open>_scan_once\<close>, \<^verbatim>\<open>JSONArray\<close> and \<^verbatim>\<open>JSONObject\<close>.  The first argument bounds
  the number of calls that are still allowed; \<open>json_loads\<close> starts with more than a
  document of its length can use.  \<open>json_array\<close> and \<open>json_object\<close> are the bodies of the
  two \<^verbatim>\<open>while True\<close> loops, with the values read so far.
\<close>

fun scan_once :: "nat \<Rightarrow> string \<Rightarrow> exn + json \<times> string"
  and json_array :: "nat \<Rightarrow> json list \<Rightarrow> string \<Rightarrow> exn + json \<times> string"
  and json_object :: "nat \<Rightarrow> (string \<times> json) list \<Rightarrow> string \<Rightarrow> exn + json \<times> string"
where
  "scan_once 0 s = Inl (Unmodelled ''call bound'')"
| "scan_once (Suc n) s =
     (case s of
        [] \<Rightarrow> Inl (JSONDecodeError ''Expecting value'')
      | c # cs \<Rightarrow>
          if c = CHR 0x22 then
            (case scanstring cs of Inl e \<Rightarrow> Inl e | Inr (str, r) \<Rightarrow> Inr (JString str, r))
          else if c = CHR ''{'' then
            (let r = skip_ws cs
             in if startswith r ''}'' then Inr (JObject [], drop 1 r)
                else if startswith r [CHR 0x22] then json_object n [] (drop 1 r)
                else Inl (JSONDecodeError ''Expecting property name enclosed in double quotes''))
          else if c = CHR ''['' then
            (let r = skip_ws cs
             in if startswith r '']'' then Inr (JArray [], drop 1 r)
                else json_array n [] r)
          else if startswith s ''null'' then Inr (JNull, drop 4 s)
          else if startswith s ''true'' then Inr (JBool True, drop 4 s)
          else if startswith s ''false'' then Inr (JBool False, drop 5 s)
          else
            (case match_number s of
               Some (integer, frac, ex, r) \<Rightarrow>
                 (case number_value integer frac ex of
                    Inl e \<Rightarrow> Inl e
                  | Inr v \<Rightarrow> Inr (v, r))
             | None \<Rightarrow>
                 if startswith s ''NaN'' then Inr (JConstant ''NaN'', drop 3 s)
                 else if startswith s ''Infinity'' then Inr (JConstant ''Infinity'', drop 8 s)
                 else if startswith s ''-Infinity'' then Inr (JConstant ''-Infinity'', drop 9 s)
                 else Inl (JSONDecodeError ''Expecting value'')))"
| "json_array 0 values s = Inl (Unmodelled ''call bound'')"
| "json_array (Suc n) values s =
     (case scan_once n s of
        Inl e \<Rightarrow> Inl e
      | Inr (v, r) \<Rightarrow>
          (let r1 = skip_ws r
           in if startswith r1 '']'' then Inr (JArray (values @ [v]), drop 1 r1)
              else if \<not> startswith r1 '','' then Inl (JSONDecodeError ''Expecting , delimiter'')
              else json_array n (values @ [v]) (skip_ws (drop 1 r1))))"
| "json_object 0 pairs s = Inl (Unmodelled ''call bound'')"
| "json_object (Suc n) pairs s =
     (case scanstring s of
        Inl e \<Rightarrow> Inl e
      | Inr (key, r) \<Rightarrow>
          (let r1 = skip_ws r
           in if \<not> startswith r1 '':'' then Inl (JSONDecodeError ''Expecting : delimiter'')
              else
                (case scan_once n (skip_ws (drop 1 r1)) of
                   Inl e \<Rightarrow> Inl e
                 | Inr (v, r2) \<Rightarrow>
                     (let r3 = skip_ws r2
                      in if startswith r3 ''}'' then Inr (JObject (dict_set pairs key v), drop 1 r3)
                         else if \<not> startswith r3 '','' then
                           Inl (JSONDecodeError ''Expecting , delimiter'')
                         else
                           (let r4 = skip_ws (drop 1 r3)
                            in if startswith r4 [CHR 0x22]
                               then json_object n (dict_set pairs key v) (drop 1 r4)
                               else Inl (JSONDecodeError
                                      ''Expecting property name enclosed in double quotes''))))))"

text \<open>\<^verbatim>\<open>JSONDecoder.decode\<close>: one value between optional whitespace, nothing after it.\<close>

definition json_loads :: "string \<Rightarrow> exn + json" where
  "json_loads s =
     (case scan_once (2 * length s + 2) (skip_ws s) of
        Inl e \<Rightarrow> Inl e
      | Inr (v, r) \<Rightarrow>
          if skip_ws r = [] then Inr v else Inl (JSONDecodeError ''Extra data''))"

subsection \<open>From the reply to the items\<close>

text \<open>
  Lines 31 to 39, on the text \<^verbatim>\<open>response.choices[0].message.content\<close>: strip it; if it
  starts with the fence, take the piece after the first fence (\<^verbatim>\<open>split(fence)[1]\<close>), drop
  a leading \<^verbatim>\<open>json\<close> and strip again; then \<^verbatim>\<open>json.loads\<close>.
\<close>

definition strip_code_block :: "string \<Rightarrow> exn + string" where
  "strip_code_block content =
     (let result = strip content
      in if startswith result fence then
           (case subscript (split fence result) 1 of
              Inl e \<Rightarrow> Inl e
            | Inr inner \<Rightarrow>
                Inr (strip (if startswith inner ''json'' then drop 4 inner else inner)))
         else Inr result)"

definition parse_response :: "string \<Rightarrow> exn + json" where
  "parse_response content =
     (case strip_code_block content of
        Inl e \<Rightarrow> Inl e
      | Inr result \<Rightarrow> json_loads result)"

text \<open>
  The remote call is the parameter \<open>remote\<close>: given the credential that
  \<^verbatim>\<open>os.environ.get("OPENROUTER_API_KEY")\<close> returned and the user's text, it raises or
  returns the message content, which the client library types as an optional string.
  \<open>parse_items_with_llm\<close> returns the requests it sent (one, with the user's text) and
  its result.
\<close>

definition parse_items_with_llm ::
  "(string option \<Rightarrow> string \<Rightarrow> exn + string option) \<Rightarrow> string option \<Rightarrow> string
     \<Rightarrow> string list \<times> (exn + json)" where
  "parse_items_with_llm remote api_key text =
     ([text],
      case remote api_key text of
        Inl e \<Rightarrow> Inl e
      | Inr None \<Rightarrow> Inl (AttributeError ''NoneType object has no attribute strip'')
      | Inr (Some content) \<Rightarrow> parse_response content)"

section \<open>The driver: the handler of the Generate button\<close>

text \<open>
  What a run shows and sends, in order.  \<open>Request\<close> is one request to the completion
  endpoint.  \<open>StErrorParsing e\<close> is \<^verbatim>\<open>st.error(f"Error parsing items: {e}")\<close> and
  \<open>StWrite i item\<close> is \<^verbatim>\<open>st.write(f"{i}. {item}")\<close>, with the exception and the item
  unformatted.  \<open>Uncaught e\<close> ends a run whose exception no handler catches.
\<close>

datatype event =
    StError string
  | StErrorParsing exn
  | StSuccess string
  | StSpinner string
  | StExpander string
  | StWrite nat json
  | Request string
  | StPyplot figure
  | Uncaught exn

text \<open>\<^verbatim>\<open>str(n)\<close> for \<open>n \<ge> 0\<close>\<close>

fun show_nat :: "nat \<Rightarrow> string" where
  "show_nat n =
     (if n < 10 then [char_of (48 + n)]
      else show_nat (n div 10) @ [char_of (48 + n mod 10)])"

text \<open>\<^verbatim>\<open>len(v)\<close>: lists, dicts and strings have a length, the other values raise.\<close>

fun py_len :: "json \<Rightarrow> exn + nat" where
  "py_len (JArray vs) = Inr (length vs)"
| "py_len (JObject ps) = Inr (length ps)"
| "py_len (JString s) = Inr (length s)"
| "py_len v = Inl (TypeError ''object has no len()'')"

text \<open>
  The items a \<^verbatim>\<open>for\<close> loop over a value with a length visits: the elements of a list, the
  keys of a dict, the characters of a string.
\<close>

fun py_iter :: "json \<Rightarrow> json list" where
  "py_iter (JArray vs) = vs"
| "py_iter (JObject ps) = map (\<lambda>p. JString (fst p)) ps"
| "py_iter (JString s) = map (\<lambda>c. JString [c]) s"
| "py_iter v = []"

fun str_of :: "json \<Rightarrow> string option" where
  "str_of (JString s) = Some s"
| "str_of v = None"

text \<open>
  \<^verbatim>\<open>generate_bingo_card(items, title=title)\<close> on the value that the extractor returned,
  whatever its type.  A list reaches the drawing loop, which reads its first 24 elements
  and no others; \<^verbatim>\<open>textwrap.wrap\<close> raises \<^verbatim>\<open>AttributeError\<close> on one that is not a
  string.  A string or a dict raises \<^verbatim>\<open>TypeError\<close> while the slot list is built
  (concatenation with a list, slicing a dict, assignment into a string).
\<close>

definition card_of_value ::
  "(nat \<Rightarrow> nat) \<Rightarrow> (string \<Rightarrow> string list) \<Rightarrow> json \<Rightarrow> string \<Rightarrow> exn + figure" where
  "card_of_value randbelow wrap v ttl =
     (case v of
        JArray vs \<Rightarrow>
          (case those (map str_of (take 24 vs)) of
             None \<Rightarrow> Inl (AttributeError ''object has no attribute expandtabs'')
           | Some items \<Rightarrow> generate_bingo_card randbelow wrap items ttl)
      | _ \<Rightarrow> Inl (TypeError ''unsupported operand''))"

text \<open>
  The part of the \<^verbatim>\<open>try\<close> block after the extractor has returned \<open>v\<close>: the success
  message needs \<^verbatim>\<open>len(items)\<close>, the expander lists the items from 1.
\<close>

definition show_items :: "json \<Rightarrow> exn + event list" where
  "show_items v =
     (case py_len v of
        Inl e \<Rightarrow> Inl e
      | Inr n \<Rightarrow>
          Inr ([StSuccess (''Found '' @ show_nat n @ '' items!''),
                StExpander ''View parsed items''] @
               map (\<lambda>(i, item). StWrite i item) (zip [1 ..< Suc (length (py_iter v))] (py_iter v))))"

text \<open>
  \<^verbatim>\<open>if items:\<close> and the rendering under it.  It is reached with \<^verbatim>\<open>None\<close> after the
  \<^verbatim>\<open>except\<close> branch, and otherwise with a value whose \<^verbatim>\<open>len\<close> has returned: a list,
  a dict or a string, which is true when it is not empty.
\<close>

definition render_items ::
  "(nat \<Rightarrow> nat) \<Rightarrow> (string \<Rightarrow> string list) \<Rightarrow> json option \<Rightarrow> string \<Rightarrow> event list" where
  "render_items randbelow wrap items ttl =
     (case items of
        None \<Rightarrow> []
      | Some v \<Rightarrow>
          if py_len v = Inr 0 then []
          else StSpinner ''Generating bingo card...'' #
               (case card_of_value randbelow wrap v ttl of
                  Inl e \<Rightarrow> [Uncaught e]
                | Inr fig \<Rightarrow> [StPyplot fig]))"

text \<open>
  The body of \<^verbatim>\<open>if st.button("Generate Bingo Card", type="primary"):\<close>.
  \<open>api_key\<close> is \<^verbatim>\<open>os.environ.get("OPENROUTER_API_KEY")\<close>.  \<^verbatim>\<open>except Exception\<close> catches
  every Python exception; an \<open>Unmodelled\<close> run stays unmodelled.
\<close>

definition generate_clicked ::
  "(nat \<Rightarrow> nat) \<Rightarrow> (string \<Rightarrow> string list) \<Rightarrow> (string option \<Rightarrow> string \<Rightarrow> exn + string option)
     \<Rightarrow> string option \<Rightarrow> string \<Rightarrow> string \<Rightarrow> event list" where
  "generate_clicked randbelow wrap remote api_key user_input ttl =
     (if strip user_input = [] then [StError ''Please enter some items first!'']
      else if api_key = None \<or> api_key = Some [] then
        [StError ''Please set OPENROUTER_API_KEY environment variable'']
      else
        (let (requests, res) = parse_items_with_llm remote api_key user_input;
             shown = (case res of Inl e \<Rightarrow> Inl e | Inr v \<Rightarrow> show_items v)
         in StSpinner ''Parsing your items...'' # map Request requests @
            (case shown of
               Inl (Unmodelled m) \<Rightarrow> [Uncaught (Unmodelled m)]
             | Inl e \<Rightarrow> StErrorParsing e # render_items randbelow wrap None ttl
             | Inr evs \<Rightarrow>
                 evs @ render_items randbelow wrap (case res of Inl e \<Rightarrow> None | Inr v \<Rightarrow> Some v) ttl)))"

section \<open>Reading a figure\<close>

text \<open>
  The squares drawn with the free-space fill colour, as (column, row) pairs, and the texts
  drawn in the square at column \<open>i\<close> and row \<open>j\<close>.
\<close>

definition free_cells :: "figure \<Rightarrow> (int \<times> int) list" where
  "free_cells fig =
     map (\<lambda>c. (col c, row c)) (filter (\<lambda>c. face_color c = ''#fff0f3'') (cells fig))"

definition label_at :: "figure \<Rightarrow> int \<Rightarrow> int \<Rightarrow> string list" where
  "label_at fig i j = map wrapped_label (filter (\<lambda>c. col c = i \<and> row c = j) (cells fig))"

text \<open>The grid coordinates in the order of the two loops.\<close>

definition grid :: "(int \<times> int) list" where
  "grid = concat (map (\<lambda>i. map (\<lambda>j. (i, j)) range5) range5)"

text \<open>The requests that a run of the driver sent, in order.\<close>

definition requests_sent :: "event list \<Rightarrow> string list" where
  "requests_sent evs = concat (map (\<lambda>ev. case ev of Request t \<Rightarrow> [t] | _ \<Rightarrow> []) evs)"


section \<open>Sample inputs\<close>

text \<open>A random source that always draws the first position.\<close>

definition draw_first :: "nat \<Rightarrow> nat" where
  "draw_first n = 0"

text \<open>A wrapper that keeps the label on one line.\<close>

definition one_line :: "string \<Rightarrow> string list" where
  "one_line label = [label]"

definition three_items :: "string list" where
  "three_items = [''A'', ''B'', ''C'']"

text \<open>Thirty distinct items: the decimal numerals of 1 to 30.\<close>

definition thirty_items :: "string list" where
  "thirty_items = map show_nat [1 ..< 31]"

text \<open>Replies of the model: a fenced array, prose, an empty array, and valid JSON that is no list of strings.\<close>

definition fenced_reply :: string where
  "fenced_reply =
     fence @ ''json'' @ [CHR 0x0A] @
     ''['' @ [CHR 0x22] @ ''Ski'' @ [CHR 0x22] @ '','' @ [CHR 0x22] @ ''Read'' @ [CHR 0x22] @ '']'' @
     [CHR 0x0A] @ fence"




definition remote_fenced :: "string option \<Rightarrow> string \<Rightarrow> exn + string option" where
  "remote_fenced api_key text = Inr (Some fenced_reply)"









definition blank_input :: string where
  "blank_input = [CHR '' '', CHR 0x09, CHR 0x0A, CHR '' '']"

definition remote_empty_list :: "string option \<Rightarrow> string \<Rightarrow> exn + string option" where
  "remote_empty_list api_key text = Inr (Some ''[]'')"

section \<open>Properties of the slot list\<close>

declare show_nat.simps [simp del]

lemma length_pad_or_trim: "length (pad_or_trim items) = 24"
  by (simp add: pad_or_trim_def)

lemma length_shuffle_from: "length (shuffle_from randbelow k x) = length x"
  by (induction k arbitrary: x) (simp_all add: Let_def)

lemma length_shuffle: "length (shuffle randbelow x) = length x"
  by (simp add: shuffle_def length_shuffle_from)

text \<open>
  C1: for an input list of length \<open>L\<close>, the slot list built before the shuffle has length
  24 and is the \<open>L\<close> items followed by \<open>24 - L\<close> empty strings when \<open>L < 24\<close>, and is the
  first 24 items in their order when \<open>L \<ge> 24\<close>.
\<close>

theorem pad_or_trim_spec:
  "(length items < 24 \<longrightarrow>
      length (pad_or_trim items) = 24 \<and>
      pad_or_trim items = items @ replicate (24 - length items) [] \<and>
      (\<forall>k < 24. pad_or_trim items ! k = (if k < length items then items ! k else []))) \<and>
   (24 \<le> length items \<longrightarrow>
      length (pad_or_trim items) = 24 \<and>
      pad_or_trim items = take 24 items \<and>
      (\<forall>k < 24. pad_or_trim items ! k = items ! k))"
  by (auto simp: pad_or_trim_def nth_append)

theorem pad_or_trim_spec_witness:
  "length three_items < 24 \<and>
   pad_or_trim three_items = three_items @ replicate 21 [] \<and>
   24 \<le> length thirty_items \<and>
   pad_or_trim thirty_items = take 24 thirty_items"
proof -
  have short: "length three_items < 24" by (simp add: three_items_def)
  have long: "24 \<le> length thirty_items" by (simp add: thirty_items_def)
  have "24 - length three_items = 21" by (simp add: three_items_def)
  then show ?thesis
    using pad_or_trim_spec [of three_items] pad_or_trim_spec [of thirty_items] short long
    by simp
qed

section \<open>Properties of the shuffled card\<close>



lemma length_all_slots: "length (all_slots randbelow items) = 25"
  by (simp add: all_slots_def list_insert_def length_shuffle length_pad_or_trim)

lemma all_slots_12: "all_slots randbelow items ! 12 = free_label"
  by (simp add: all_slots_def list_insert_def nth_append length_shuffle length_pad_or_trim)


text \<open>
  C2: for every input list and every outcome of the shuffle, the final sequence has exactly
  25 elements and the free-space label is its element at index 12.
\<close>

theorem free_label_at_index_12:
  "length (all_slots randbelow items) = 25 \<and> all_slots randbelow items ! 12 = free_label"
  by (simp add: length_all_slots all_slots_12)

text \<open>
  C4, as the code has it: for every input list and every outcome of the shuffle, the string
  inserted at index 12 is the literal \<^verbatim>\<open>"FREE:\nAppreciate Life"\<close>, with a line feed
  after the colon.  The label with a space in that place is not what the card holds.
\<close>

theorem free_label_literal:
  "all_slots randbelow items ! 12 = ''FREE:'' @ [CHR 0x0A] @ ''Appreciate Life''"
  by (simp add: all_slots_12 free_label_def)

theorem free_label_not_spaced:
  "all_slots draw_first three_items ! 12 \<noteq> ''FREE: Appreciate Life''"
  by (simp add: all_slots_12 free_label_def)



section \<open>Properties of the grid\<close>

lemma cell_idx_inj:
  "0 \<le> i \<Longrightarrow> i \<le> 4 \<Longrightarrow> 0 \<le> i' \<Longrightarrow> i' \<le> 4 \<Longrightarrow> cell_idx i j = cell_idx i' j' \<Longrightarrow>
   i = i' \<and> j = j'"
  unfolding cell_idx_def by presburger

text \<open>
  C5: the mapping \<open>idx = (4 - j) * 5 + i\<close> is a bijection between the grid coordinates
  \<open>(i, j)\<close> in \<open>[0,4] \<times> [0,4]\<close> and the logical indices \<open>[0,24]\<close>: every logical index is
  produced by exactly one pair.
\<close>

theorem cell_idx_bijection:
  "bij_betw (\<lambda>(i, j). cell_idx i j) ({0..4} \<times> {0..4}) {0..24} \<and>
   (\<forall>k \<in> {0..24}. \<exists>!p. p \<in> {0..4} \<times> {0..4} \<and> cell_idx (fst p) (snd p) = k)"
proof
  have inj: "inj_on (\<lambda>(i, j). cell_idx i j) ({0..4} \<times> {0..4})"
    by (auto simp: inj_on_def dest: cell_idx_inj)
  have img: "(\<lambda>(i, j). cell_idx i j) ` ({0..4} \<times> {0..4}) = {0..24}"
  proof (intro equalityI subsetI)
    fix k assume "k \<in> (\<lambda>(i, j). cell_idx i j) ` ({0..4} \<times> {0..4})"
    then show "k \<in> {0..24}" by (auto simp: cell_idx_def)
  next
    fix k :: int assume k: "k \<in> {0..24}"
    have "cell_idx (k mod 5) (4 - k div 5) = k"
      unfolding cell_idx_def by presburger
    moreover have "(k mod 5, 4 - k div 5) \<in> {0..4} \<times> {0..4}"
      using k by auto
    ultimately show "k \<in> (\<lambda>(i, j). cell_idx i j) ` ({0..4} \<times> {0..4})"
      by (metis (mono_tags, lifting) image_eqI case_prod_conv)
  qed
  show "bij_betw (\<lambda>(i, j). cell_idx i j) ({0..4} \<times> {0..4}) {0..24}"
    unfolding bij_betw_def using inj img by simp
  show "\<forall>k \<in> {0..24}. \<exists>!p. p \<in> {0..4} \<times> {0..4} \<and> cell_idx (fst p) (snd p) = k"
  proof
    fix k :: int assume "k \<in> {0..24}"
    then obtain p where p: "p \<in> {0..4} \<times> {0..4}" "(\<lambda>(i, j). cell_idx i j) p = k"
      using img by (metis (no_types, lifting) imageE)
    show "\<exists>!p. p \<in> {0..4} \<times> {0..4} \<and> cell_idx (fst p) (snd p) = k"
    proof (rule ex1I [of _ p])
      show "p \<in> {0..4} \<times> {0..4} \<and> cell_idx (fst p) (snd p) = k"
        using p by (simp add: case_prod_beta)
    next
      fix q assume "q \<in> {0..4} \<times> {0..4} \<and> cell_idx (fst q) (snd q) = k"
      then show "q = p"
        using p inj_onD [OF inj, of q p] by (simp add: case_prod_beta)
    qed
  qed
qed

theorem cell_idx_bijection_witness:
  "(12::int) \<in> {0..24} \<and> (\<exists>!p. p \<in> {0..4} \<times> {0..4} \<and> cell_idx (fst p) (snd p) = 12)"
  using cell_idx_bijection by simp

section \<open>Properties of the rendered card\<close>

lemma subscript_slots:
  "0 \<le> k \<Longrightarrow> k < 25 \<Longrightarrow>
   subscript (all_slots randbelow items) k = Inr (all_slots randbelow items ! nat k)"
  by (simp add: subscript_def length_all_slots)

lemma draw_cell_slots:
  "0 \<le> cell_idx i j \<Longrightarrow> cell_idx i j < 25 \<Longrightarrow>
   draw_cell wrap (all_slots randbelow items) i j =
     Inr \<lparr> col = i, row = j,
           face_color = (if cell_idx i j = 12 then ''#fff0f3'' else ''white''),
           wrapped_label = join_lines (wrap (all_slots randbelow items ! nat (cell_idx i j))) \<rparr>"
  by (simp add: draw_cell_def subscript_slots Let_def)

text \<open>The renderer never raises on a list of strings: every index it computes is in range.\<close>

lemma generate_bingo_card_cells:
  "generate_bingo_card randbelow wrap items ttl =
     Inr \<lparr> cells = map (\<lambda>(i, j).
              \<lparr> col = i, row = j,
                face_color = (if cell_idx i j = 12 then ''#fff0f3'' else ''white''),
                wrapped_label =
                  join_lines (wrap (all_slots randbelow items ! nat (cell_idx i j))) \<rparr>) grid,
           headers = [(0, ''B''), (1, ''I''), (2, ''N''), (3, ''G''), (4, ''O'')],
           title = ttl \<rparr>"
  unfolding generate_bingo_card_def grid_def range5_def Let_def
  by (simp add: draw_cell_slots cell_idx_def)

text \<open>
  C3, as the code has it: on the rendered card the one free-space position, the square
  drawn with the distinct fill colour and holding the free-space label, is at column 2 and
  row 2 of the zero-indexed \<open>5 \<times> 5\<close> grid, its centre.  It is not at row 3, column 3.
\<close>

theorem free_cell_is_centre:
  "\<exists>fig. generate_bingo_card randbelow wrap items ttl = Inr fig \<and>
         length (cells fig) = 25 \<and>
         free_cells fig = [(2, 2)] \<and>
         label_at fig 2 2 = [join_lines (wrap free_label)]"
  unfolding generate_bingo_card_cells
  by (simp add: free_cells_def label_at_def grid_def range5_def cell_idx_def all_slots_12)

theorem free_cell_not_at_3_3:
  "map_sum id free_cells (generate_bingo_card draw_first one_line three_items ''2025 GOALS'')
     \<noteq> Inr [(3, 3)]"
  unfolding generate_bingo_card_cells
  by (simp add: free_cells_def grid_def range5_def cell_idx_def)

section \<open>Properties of the extractor\<close>

subsection \<open>The decoder always answers\<close>

text \<open>
  Every successful scan consumes input, so the number of calls that decoding a document
  takes is bounded by its length: \<open>json_loads\<close> never stops at its call bound.  Its result is
  a value or an exception of the decoder (or \<open>Unmodelled\<close> for a code point above 255).
\<close>

lemma length_skip_ws: "length (skip_ws s) \<le> length s"
  by (simp add: skip_ws_def length_dropWhile_le)

lemma length_drop_skip_ws: "length (drop k (skip_ws s)) \<le> length s"
  using length_skip_ws [of s] by simp

lemma length_skip_drop_skip: "length (skip_ws (drop k (skip_ws s))) \<le> length s"
  using length_skip_ws [of "drop k (skip_ws s)"] length_drop_skip_ws [of k s] by simp

lemma cons_char_Inr:
  "cons_char c r = Inr (str, rest) \<Longrightarrow> \<exists>str'. r = Inr (str', rest)"
  by (auto simp: cons_char_def split: sum.splits)

lemma cons_char_Inl: "cons_char c r = Inl e \<Longrightarrow> r = Inl e"
  by (auto simp: cons_char_def split: sum.splits)

lemma scanstring_Cons:
  "scanstring (c # cs) = Inr (str, r) \<Longrightarrow>
   (c = CHR 0x22 \<and> r = cs) \<or>
   (\<exists>x t. length t \<le> length cs \<and> cons_char x (scanstring t) = Inr (str, r))"
  apply (simp split: if_splits list.splits option.splits)
      apply (metis le_SucI order_refl)+
  done

lemma scanstring_Cons_bound:
  assumes "scanstring (c # cs) = Inl (Unmodelled ''call bound'')"
  shows "\<exists>x t. length t \<le> length cs \<and>
           cons_char x (scanstring t) = Inl (Unmodelled ''call bound'')"
proof -
  have "cons_char x (scanstring t) = Inl (Unmodelled ''call bound'') \<Longrightarrow>
        length t \<le> length cs \<Longrightarrow> ?thesis" for x t
    by blast
  then show ?thesis
    using assms by (simp split: if_splits list.splits option.splits)
qed

lemma scanstring_shorter: "scanstring s = Inr (str, r) \<Longrightarrow> length r < length s"
proof (induction "length s" arbitrary: s str rule: less_induct)
  case less
  show ?case
  proof (cases s)
    case Nil
    then show ?thesis using less.prems by simp
  next
    case (Cons c cs)
    from scanstring_Cons [OF less.prems [unfolded Cons]]
    show ?thesis
    proof
      assume "c = CHR 0x22 \<and> r = cs"
      then show ?thesis using Cons by simp
    next
      assume "\<exists>x t. length t \<le> length cs \<and> cons_char x (scanstring t) = Inr (str, r)"
      then obtain x t where t: "length t \<le> length cs" "cons_char x (scanstring t) = Inr (str, r)"
        by blast
      then obtain str' where "scanstring t = Inr (str', r)"
        using cons_char_Inr by blast
      moreover have "length t < length s" using t(1) Cons by simp
      ultimately have "length r < length t" using less.hyps by blast
      then show ?thesis using t(1) Cons by simp
    qed
  qed
qed

lemma scanstring_bound: "scanstring s \<noteq> Inl (Unmodelled ''call bound'')"
proof (induction "length s" arbitrary: s rule: less_induct)
  case less
  show ?case
  proof (cases s)
    case Nil
    then show ?thesis by simp
  next
    case (Cons c cs)
    show ?thesis
    proof
      assume a: "scanstring s = Inl (Unmodelled ''call bound'')"
      from scanstring_Cons_bound [OF a [unfolded Cons]]
      obtain x t where t: "length t \<le> length cs"
          "cons_char x (scanstring t) = Inl (Unmodelled ''call bound'')"
        by blast
      then have "scanstring t = Inl (Unmodelled ''call bound'')"
        using cons_char_Inl by blast
      moreover have "length t < length s" using t(1) Cons by simp
      ultimately show False using less.hyps by blast
    qed
  qed
qed


lemma match_int_shorter: "match_int s = Some (i, r) \<Longrightarrow> length r < length s"
proof -
  assume a: "match_int s = Some (i, r)"
  let ?sign = "if startswith s ''-'' then ''-'' else []"
  let ?t = "drop (length ?sign) s"
  from a obtain c cs where t: "?t = c # cs"
    by (cases ?t) (simp_all add: match_int_def Let_def)
  have "r = cs \<or> r = dropWhile is_digit cs"
    using a t by (simp add: match_int_def Let_def split: if_splits)
  then have "length r \<le> length cs"
    using length_dropWhile_le [of is_digit cs] by auto
  moreover have "length (c # cs) \<le> length s"
    using t by (metis length_drop diff_le_self)
  ultimately show ?thesis by simp
qed

lemma match_frac_shorter: "match_frac s = (f, r) \<Longrightarrow> length r \<le> length s"
proof -
  assume a: "match_frac s = (f, r)"
  have "r = s \<or> (\<exists>c d ds. s = c # d # ds \<and> r = dropWhile is_digit (d # ds))"
    using a by (auto simp: match_frac_def split: list.splits if_splits)
  then show ?thesis
  proof
    assume "r = s" then show ?thesis by simp
  next
    assume "\<exists>c d ds. s = c # d # ds \<and> r = dropWhile is_digit (d # ds)"
    then obtain c d ds where s: "s = c # d # ds" "r = dropWhile is_digit (d # ds)" by blast
    show ?thesis using length_dropWhile_le [of is_digit "d # ds"] s by simp
  qed
qed

lemma match_exp_shorter: "match_exp s = (f, r) \<Longrightarrow> length r \<le> length s"
proof (cases s)
  case Nil
  assume "match_exp s = (f, r)"
  then show ?thesis using Nil by (simp add: match_exp_def)
next
  case (Cons c cs)
  assume a: "match_exp s = (f, r)"
  let ?sign = "if startswith cs ''-'' then ''-'' else if startswith cs ''+'' then ''+'' else []"
  let ?t = "drop (length ?sign) cs"
  have "r = s \<or> r = dropWhile is_digit ?t"
    using a Cons by (simp add: match_exp_def Let_def split: if_splits)
  moreover have "length (dropWhile is_digit ?t) \<le> length ?t"
    by (rule length_dropWhile_le)
  moreover have "length ?t \<le> length cs"
    by (metis length_drop diff_le_self)
  ultimately show ?thesis using Cons by auto
qed

lemma match_number_shorter:
  "match_number s = Some (i, f, e, r) \<Longrightarrow> length r < length s"
proof -
  assume a: "match_number s = Some (i, f, e, r)"
  then obtain i' r1 where 1: "match_int s = Some (i', r1)"
    by (cases "match_int s") (auto simp: match_number_def)
  obtain f' r2 where 2: "match_frac r1 = (f', r2)" by (cases "match_frac r1")
  obtain e' r3 where 3: "match_exp r2 = (e', r3)" by (cases "match_exp r2")
  have "r = r3" using a 1 2 3 by (simp add: match_number_def)
  then show ?thesis
    using match_int_shorter [OF 1] match_frac_shorter [OF 2] match_exp_shorter [OF 3] by simp
qed

lemma number_value_bound: "number_value i f e \<noteq> Inl (Unmodelled ''call bound'')"
  by (simp add: number_value_def)

lemma scan_once_Suc_shorter:
  assumes "scan_once (Suc n) s = Inr (v, r)"
    and obj: "\<And>t. length t < length s \<Longrightarrow> json_object n [] t = Inr (v, r) \<Longrightarrow> length r < length t"
    and arr: "\<And>t. length t < length s \<Longrightarrow> json_array n [] t = Inr (v, r) \<Longrightarrow> length r < length t"
  shows "length r < length s"
proof (cases s)
  case Nil
  then show ?thesis using assms(1) by simp
next
  case (Cons c cs)
  have l1: "length (skip_ws cs) < length s"
    using length_skip_ws [of cs] Cons by simp
  have l2: "length (drop (Suc 0) (skip_ws cs)) < length s"
    using length_drop_skip_ws [of "Suc 0" cs] Cons by simp
  note o = obj [OF l2] and a = arr [OF l1]
  have str: "\<And>x. scanstring cs = Inr (x, r) \<Longrightarrow> length r < length cs"
    by (rule scanstring_shorter)
  have num: "\<And>i f e. match_number (c # cs) = Some (i, f, e, r) \<Longrightarrow> length r < Suc (length cs)"
    using match_number_shorter [of "c # cs"] by simp
  show ?thesis
    using assms(1) l1 l2 o a str num unfolding Cons
    by (auto simp: Let_def split: if_splits sum.splits option.splits prod.splits)
qed


lemma json_array_Suc_shorter:
  assumes "json_array (Suc n) acc s = Inr (v, r)"
    and sc: "\<And>v1 r1. scan_once n s = Inr (v1, r1) \<Longrightarrow> length r1 < length s"
    and arr: "\<And>acc' t. length t < length s \<Longrightarrow> json_array n acc' t = Inr (v, r) \<Longrightarrow>
                length r < length t"
  shows "length r < length s"
proof (cases "scan_once n s")
  case (Inl e)
  then show ?thesis using assms(1) by simp
next
  case (Inr p)
  obtain v1 r1 where p: "p = (v1, r1)" by (cases p)
  have l0: "length r1 < length s"
    using sc Inr p by simp
  have l1: "length (drop (Suc 0) (skip_ws r1)) < length s"
    using length_drop_skip_ws [of "Suc 0" r1] l0 by simp
  have l2: "length (skip_ws (drop (Suc 0) (skip_ws r1))) < length s"
    using length_skip_drop_skip [of "Suc 0" r1] l0 by simp
  note a = arr [OF l2, of "acc @ [v1]"]
  show ?thesis
    using assms(1) Inr p l1 l2 a
    by (auto simp: Let_def split: if_splits)
qed

lemma json_object_Suc_shorter:
  assumes "json_object (Suc n) ps s = Inr (v, r)"
    and sc: "\<And>t v1 r1. length t < length s \<Longrightarrow> scan_once n t = Inr (v1, r1) \<Longrightarrow>
                length r1 < length t"
    and obj: "\<And>ps' t. length t < length s \<Longrightarrow> json_object n ps' t = Inr (v, r) \<Longrightarrow>
                length r < length t"
  shows "length r < length s"
proof (cases "scanstring s")
  case (Inl e)
  then show ?thesis using assms(1) by simp
next
  case (Inr p)
  obtain key r0 where p: "p = (key, r0)" by (cases p)
  have l0: "length r0 < length s"
    using scanstring_shorter Inr p by simp
  let ?t = "skip_ws (drop (Suc 0) (skip_ws r0))"
  have lt: "length ?t < length s"
    using length_skip_drop_skip [of "Suc 0" r0] l0 by simp
  show ?thesis
  proof (cases "scan_once n ?t")
    case Inl
    then show ?thesis using assms(1) Inr p by (simp add: Let_def split: if_splits)
  next
    case (Inr q)
    obtain v1 r2 where q: "q = (v1, r2)" by (cases q)
    have l2: "length r2 < length s"
      using sc [OF lt] Inr q lt by fastforce
    have l3: "length (drop (Suc 0) (skip_ws r2)) < length s"
      using length_drop_skip_ws [of "Suc 0" r2] l2 by simp
    have l4: "length (drop (Suc 0) (skip_ws (drop (Suc 0) (skip_ws r2)))) < length s"
      using length_drop_skip_ws [of "Suc 0" "drop (Suc 0) (skip_ws r2)"] l3 by simp
    note o = obj [OF l4, of "dict_set ps key v1"]
    show ?thesis
      using assms(1) \<open>scanstring s = Inr p\<close> p Inr q l3 l4 o
      by (auto simp: Let_def split: if_splits)
  qed
qed

lemma scan_shorter:
  "(\<forall>s v r. scan_once n s = Inr (v, r) \<longrightarrow> length r < length s) \<and>
   (\<forall>acc s v r. json_array n acc s = Inr (v, r) \<longrightarrow> length r < length s) \<and>
   (\<forall>ps s v r. json_object n ps s = Inr (v, r) \<longrightarrow> length r < length s)"
proof (induction n)
  case 0
  show ?case by simp
next
  case (Suc n)
  have sc: "length r < length s" if "scan_once n s = Inr (v, r)" for s v r
    using Suc that by blast
  have ar: "length r < length s" if "json_array n acc s = Inr (v, r)" for acc s v r
    using Suc that by blast
  have ob: "length r < length s" if "json_object n ps s = Inr (v, r)" for ps s v r
    using Suc that by blast
  have 1: "length r < length s" if "scan_once (Suc n) s = Inr (v, r)" for s v r
    using that by (rule scan_once_Suc_shorter) (auto dest: ob ar)
  have 2: "length r < length s" if "json_array (Suc n) acc s = Inr (v, r)" for acc s v r
    using that by (rule json_array_Suc_shorter) (auto dest: sc ar)
  have 3: "length r < length s" if "json_object (Suc n) ps s = Inr (v, r)" for ps s v r
    using that by (rule json_object_Suc_shorter) (auto dest: sc ob)
  show ?case
    using 1 2 3 by blast
qed

lemma scan_once_shorter: "scan_once n s = Inr (v, r) \<Longrightarrow> length r < length s"
  using scan_shorter [of n] by blast


lemma startswith_drop_shorter:
  "startswith x [c] \<Longrightarrow> length (drop (Suc 0) x) < length x"
  by (cases x) (simp_all add: startswith_def)

lemma scan_once_Suc_bound:
  assumes "scan_once (Suc n) s = Inl (Unmodelled ''call bound'')"
    and obj: "\<And>t. length t < length s \<Longrightarrow> json_object n [] t \<noteq> Inl (Unmodelled ''call bound'')"
    and arr: "\<And>t. length t < length s \<Longrightarrow> json_array n [] t \<noteq> Inl (Unmodelled ''call bound'')"
  shows False
proof (cases s)
  case Nil
  then show ?thesis using assms(1) by simp
next
  case (Cons c cs)
  have l1: "length (skip_ws cs) < length s"
    using length_skip_ws [of cs] Cons by simp
  have l2: "length (drop (Suc 0) (skip_ws cs)) < length s"
    using length_drop_skip_ws [of "Suc 0" cs] Cons by simp
  note o = obj [OF l2] and a = arr [OF l1]
  note str = scanstring_bound [of cs]
  have num: "\<And>i f e. number_value i f e \<noteq> Inl (Unmodelled ''call bound'')"
    by (rule number_value_bound)
  show ?thesis
    using assms(1) o a str num unfolding Cons
    by (simp add: Let_def split: if_splits sum.splits option.splits prod.splits)
qed

lemma json_array_Suc_bound:
  assumes "json_array (Suc n) acc s = Inl (Unmodelled ''call bound'')"
    and sc: "scan_once n s \<noteq> Inl (Unmodelled ''call bound'')"
    and arr: "\<And>acc' t. length t + 2 \<le> length s \<Longrightarrow>
                json_array n acc' t \<noteq> Inl (Unmodelled ''call bound'')"
  shows False
proof (cases "scan_once n s")
  case (Inl e)
  then show ?thesis using assms(1) sc by simp
next
  case (Inr p)
  obtain v1 r1 where p: "p = (v1, r1)" by (cases p)
  have l0: "length r1 < length s"
    using scan_once_shorter Inr p by simp
  show ?thesis
  proof (cases "startswith (skip_ws r1) '',''")
    case False
    then show ?thesis
      using assms(1) Inr p by (simp add: Let_def split: if_splits)
  next
    case True
    have "length (drop (Suc 0) (skip_ws r1)) < length (skip_ws r1)"
      using True by (rule startswith_drop_shorter)
    then have "length (skip_ws (drop (Suc 0) (skip_ws r1))) + 2 \<le> length s"
      using length_skip_ws [of "drop (Suc 0) (skip_ws r1)"] length_skip_ws [of r1] l0 by simp
    note a = arr [OF this, of "acc @ [v1]"]
    show ?thesis
      using assms(1) Inr p a by (simp add: Let_def split: if_splits)
  qed
qed

lemma json_object_Suc_bound:
  assumes "json_object (Suc n) ps s = Inl (Unmodelled ''call bound'')"
    and sc: "\<And>t. length t < length s \<Longrightarrow> scan_once n t \<noteq> Inl (Unmodelled ''call bound'')"
    and obj: "\<And>ps' t. length t < length s \<Longrightarrow>
                json_object n ps' t \<noteq> Inl (Unmodelled ''call bound'')"
  shows False
proof (cases "scanstring s")
  case (Inl e)
  then show ?thesis using assms(1) scanstring_bound [of s] by simp
next
  case (Inr p)
  obtain key r0 where p: "p = (key, r0)" by (cases p)
  have l0: "length r0 < length s"
    using scanstring_shorter Inr p by simp
  let ?t = "skip_ws (drop (Suc 0) (skip_ws r0))"
  have lt: "length ?t < length s"
    using length_skip_drop_skip [of "Suc 0" r0] l0 by simp
  show ?thesis
  proof (cases "scan_once n ?t")
    case (Inl e)
    then show ?thesis
      using assms(1) \<open>scanstring s = Inr p\<close> p sc [OF lt]
      by (simp add: Let_def split: if_splits)
  next
    case (Inr q)
    obtain v1 r2 where q: "q = (v1, r2)" by (cases q)
    have l2: "length r2 < length s"
      using scan_once_shorter [of n ?t v1 r2] Inr q lt by simp
    have l4: "length (drop (Suc 0) (skip_ws (drop (Suc 0) (skip_ws r2)))) < length s"
      using length_drop_skip_ws [of "Suc 0" "drop (Suc 0) (skip_ws r2)"]
        length_drop_skip_ws [of "Suc 0" r2] l2 by simp
    note o = obj [OF l4, of "dict_set ps key v1"]
    show ?thesis
      using assms(1) \<open>scanstring s = Inr p\<close> p Inr q o
      by (simp add: Let_def split: if_splits)
  qed
qed

lemma scan_bound:
  assumes e: "e = Unmodelled ''call bound''"
  shows "(\<forall>s. 2 * length s < n \<longrightarrow> scan_once n s \<noteq> Inl e) \<and>
         (\<forall>acc s. 2 * length s + 1 < n \<longrightarrow> json_array n acc s \<noteq> Inl e) \<and>
         (\<forall>ps s. 2 * length s < n \<longrightarrow> json_object n ps s \<noteq> Inl e)"
proof (induction n)
  case 0
  show ?case by simp
next
  case (Suc n)
  have sc: "scan_once n s \<noteq> Inl e" if "2 * length s < n" for s
    using Suc that by blast
  have ar: "json_array n acc s \<noteq> Inl e" if "2 * length s + 1 < n" for acc s
    using Suc that by blast
  have ob: "json_object n ps s \<noteq> Inl e" if "2 * length s < n" for ps s
    using Suc that by blast
  have 1: "scan_once (Suc n) s \<noteq> Inl e" if b: "2 * length s < Suc n" for s
  proof
    assume "scan_once (Suc n) s = Inl e"
    then show False
    proof (rule scan_once_Suc_bound [folded e])
      fix t :: string assume "length t < length s"
      then show "json_object n [] t \<noteq> Inl e"
        using b by (intro ob) simp
    next
      fix t :: string assume "length t < length s"
      then show "json_array n [] t \<noteq> Inl e"
        using b by (intro ar) simp
    qed
  qed
  have 2: "json_array (Suc n) acc s \<noteq> Inl e" if b: "2 * length s + 1 < Suc n" for acc s
  proof
    assume "json_array (Suc n) acc s = Inl e"
    then show False
    proof (rule json_array_Suc_bound [folded e])
      show "scan_once n s \<noteq> Inl e"
        using b by (intro sc) simp
    next
      fix acc' and t :: string assume "length t + 2 \<le> length s"
      then show "json_array n acc' t \<noteq> Inl e"
        using b by (intro ar) simp
    qed
  qed
  have 3: "json_object (Suc n) ps s \<noteq> Inl e" if b: "2 * length s < Suc n" for ps s
  proof
    assume "json_object (Suc n) ps s = Inl e"
    then show False
    proof (rule json_object_Suc_bound [folded e])
      fix t :: string assume "length t < length s"
      then show "scan_once n t \<noteq> Inl e"
        using b by (intro sc) simp
    next
      fix ps' and t :: string assume "length t < length s"
      then show "json_object n ps' t \<noteq> Inl e"
        using b by (intro ob) simp
    qed
  qed
  show ?case
    using 1 2 3 by blast
qed

lemma json_loads_bound: "json_loads s \<noteq> Inl (Unmodelled ''call bound'')"
proof -
  define e where "e = Unmodelled ''call bound''"
  define n where "n = 2 * length s + 2"
  have "2 * length (skip_ws s) < n"
    using length_skip_ws [of s] by (simp add: n_def)
  then have "scan_once n (skip_ws s) \<noteq> Inl e"
    using scan_bound [OF e_def, of n] by blast
  moreover have "JSONDecodeError ''Extra data'' \<noteq> e"
    by (simp add: e_def)
  moreover have "json_loads s =
      (case scan_once n (skip_ws s) of
         Inl e \<Rightarrow> Inl e
       | Inr (v, r) \<Rightarrow> if skip_ws r = [] then Inr v else Inl (JSONDecodeError ''Extra data''))"
    unfolding json_loads_def n_def ..
  ultimately have "json_loads s \<noteq> Inl e"
    by (cases "scan_once n (skip_ws s)") (auto split: if_splits)
  then show ?thesis
    by (simp add: e_def)
qed




subsection \<open>Arrays of string literals decode to their strings\<close>

lemma startswith_Nil [simp]: "startswith s [] = True"
  by (simp add: startswith_def)

lemma startswith_Nil_Cons [simp]: "startswith [] (p # ps) = False"
  by (simp add: startswith_def)

lemma startswith_Cons [simp]: "startswith (c # cs) (p # ps) = (c = p \<and> startswith cs ps)"
  by (auto simp: startswith_def)


lemma skip_ws_Nil [simp]: "skip_ws [] = []"
  by (simp add: skip_ws_def)




















section \<open>Properties of the driver\<close>

lemma show_nat_0: "show_nat 0 = ''0''"
  by code_simp

text \<open>
  C9: a click with empty or whitespace-only input shows the user-input error and sends no
  request; a click with the credential missing sends no request either, and shows the
  configuration error (the input check comes first, so this is for input that is not blank).
\<close>

theorem no_request_on_blank_input_or_missing_key:
  "(strip user_input = [] \<longrightarrow>
      generate_clicked randbelow wrap remote api_key user_input ttl
        = [StError ''Please enter some items first!''] \<and>
      requests_sent (generate_clicked randbelow wrap remote api_key user_input ttl) = []) \<and>
   (api_key = None \<or> api_key = Some [] \<longrightarrow>
      requests_sent (generate_clicked randbelow wrap remote api_key user_input ttl) = [] \<and>
      (strip user_input \<noteq> [] \<longrightarrow>
         generate_clicked randbelow wrap remote api_key user_input ttl
           = [StError ''Please set OPENROUTER_API_KEY environment variable'']))"
  by (auto simp: generate_clicked_def requests_sent_def)

theorem no_request_on_blank_input_or_missing_key_witness:
  "strip blank_input = [] \<and>
   generate_clicked draw_first one_line remote_fenced (Some ''key'') blank_input ''2025 GOALS''
     = [StError ''Please enter some items first!''] \<and>
   strip ''ski, read'' \<noteq> [] \<and>
   generate_clicked draw_first one_line remote_fenced None ''ski, read'' ''2025 GOALS''
     = [StError ''Please set OPENROUTER_API_KEY environment variable''] \<and>
   requests_sent (generate_clicked draw_first one_line remote_fenced None ''ski, read'' ''2025 GOALS'')
     = []"
proof -
  have b: "strip blank_input = []" by code_simp
  have n: "strip ''ski, read'' \<noteq> []" by code_simp
  show ?thesis
    using b n
      no_request_on_blank_input_or_missing_key
        [of blank_input draw_first one_line remote_fenced "Some ''key''" "''2025 GOALS''"]
      no_request_on_blank_input_or_missing_key
        [of "''ski, read''" draw_first one_line remote_fenced None "''2025 GOALS''"]
    by (simp add: requests_sent_def)
qed

text \<open>
  C10: when the extraction succeeds with an empty list, the run shows the spinner, sends its
  request, shows the success message and the empty expander, and ends: no card is generated
  or displayed and no error is shown.  The guard \<^verbatim>\<open>if items:\<close> skips the rendering for the
  empty list as it does after a failed extraction.
\<close>

theorem empty_list_skips_rendering:
  assumes "strip user_input \<noteq> []" and "api_key \<noteq> None" and "api_key \<noteq> Some []"
    and "remote api_key user_input = Inr (Some content)"
    and "parse_response content = Inr (JArray [])"
  shows "generate_clicked randbelow wrap remote api_key user_input ttl =
           [StSpinner ''Parsing your items...'', Request user_input,
            StSuccess ''Found 0 items!'', StExpander ''View parsed items''] \<and>
         render_items randbelow wrap (Some (JArray [])) ttl = [] \<and>
         render_items randbelow wrap None ttl = []"
  using assms
  by (simp add: generate_clicked_def parse_items_with_llm_def show_items_def render_items_def
      show_nat_0)

theorem empty_list_skips_rendering_witness:
  "strip ''ski'' \<noteq> [] \<and>
   remote_empty_list (Some ''key'') ''ski'' = Inr (Some ''[]'') \<and>
   parse_response ''[]'' = Inr (JArray []) \<and>
   generate_clicked draw_first one_line remote_empty_list (Some ''key'') ''ski'' ''2025 GOALS'' =
     [StSpinner ''Parsing your items...'', Request ''ski'',
      StSuccess ''Found 0 items!'', StExpander ''View parsed items'']"
proof -
  have a: "strip ''ski'' \<noteq> []" by code_simp
  have b: "remote_empty_list (Some ''key'') ''ski'' = Inr (Some ''[]'')"
    by (simp add: remote_empty_list_def)
  have c: "parse_response ''[]'' = Inr (JArray [])" by code_simp
  have d: "Some ''key'' \<noteq> None" "Some ''key'' \<noteq> Some []" by simp_all
  show ?thesis
    using empty_list_skips_rendering [where remote = remote_empty_list
        and api_key = "Some ''key''" and user_input = "''ski''" and content = "''[]''",
        OF a d b c] a b c
    by simp
qed

end
